theory Spec2Isabelle
  imports Complex_Main "HOL-Library.Word"
begin

section \<open>The bulk downloader \<open>get_urls.py\<close>\<close>

text \<open>
  The program reads a list of URLs and submits one call of \<open>download\<close> per URL to a
  thread pool; all calls share one \<open>requests.Session\<close>. \<open>download\<close> validates the URL,
  mounts a retrying adapter on the session, issues one \<open>session.get\<close>, logs the failures
  it handles and writes the body of any other response to a file named after the last
  path segment of the URL.

  The embedding passes state explicitly. What \<open>download\<close> can change is the session it is
  given and the outside world (log, file system, network); an exception is a value
  \<open>Inl e\<close> of the result.
\<close>

subsection \<open>Module constants\<close>

type_synonym bytes = "8 word list"

definition MAX_THREADS :: int where
  "MAX_THREADS = 100"

definition MAX_RETRY_FOR_SESSION :: int where
  "MAX_RETRY_FOR_SESSION = 5"

definition BACK_OFF_FACTOR :: rat where
  "BACK_OFF_FACTOR = 1 / 2"

definition SPECIAL_ERROR_CODES :: "int list" where
  "SPECIAL_ERROR_CODES = [403, 404]"

text \<open>
  \<open>ERROR_CODES\<close> is computed once, when the module is loaded, from the keys of the table
  \<open>requests.status_codes._codes\<close>. The table belongs to the library, so it is the
  parameter \<open>codes\<close> here.
\<close>

definition ERROR_CODES :: "int list \<Rightarrow> int list" where
  "ERROR_CODES codes = [code \<leftarrow> codes. code \<ge> 400 \<and> code \<notin> set SPECIAL_ERROR_CODES]"

subsection \<open>Exceptions, the world and the environment\<close>

datatype exn =
    AttributeError
  | ConnectionError
  | RetryError
  | InvalidSchema
  | TooManyRedirects
  | ChunkedEncodingError
  | IndexError
  | FileNotFoundError

text \<open>
  One network attempt fails in the transport or brings back a response: an ordinary one
  (status code and body), a redirect (status 301, 302, 303, 307 or 308 with a
  \<open>Location\<close> header; the string is the URL it points to), or one whose body cannot be
  read to its end.
\<close>

datatype attempt =
    Response int bytes
  | TransportError
  | Redirect int string
  | BrokenBody int

fun status_of :: "attempt \<Rightarrow> int option" where
  "status_of (Response status _) = Some status"
| "status_of TransportError = None"
| "status_of (Redirect status _) = Some status"
| "status_of (BrokenBody status) = Some status"

text \<open>
  The world outside the process: the lines written by \<open>logging.error\<close>, the files by
  absolute path, the URL of every network attempt made so far, and the working
  directory of the process.
\<close>

record world =
  error_log :: "string list"
  files :: "string \<rightharpoonup> bytes"
  sent :: "string list"
  cwd :: string

text \<open>
  The environment is what the libraries and the network decide: the truth value of
  \<open>validators.url\<close>, the answer of the server to the \<open>k\<close>-th attempt of one request for a
  URL, and the status-code table of \<open>requests\<close>.
\<close>

record env =
  valid :: "string \<Rightarrow> bool"
  server :: "string \<Rightarrow> nat \<Rightarrow> attempt"
  codes :: "int list"

subsection \<open>Strings\<close>

definition lower_char :: "char \<Rightarrow> char" where
  "lower_char c =
     (let n = (of_char c :: nat) in if 65 \<le> n \<and> n \<le> 90 then char_of (n + 32) else c)"

definition lower :: "string \<Rightarrow> string" where
  "lower s = map lower_char s"

definition startswith :: "string \<Rightarrow> string \<Rightarrow> bool" where
  "startswith s p = (take (length p) s = p)"

text \<open>\<open>s.rsplit(sep, 1)\<close>: split once, at the last occurrence of \<open>sep\<close>.\<close>

definition rsplit1 :: "char \<Rightarrow> string \<Rightarrow> string list" where
  "rsplit1 sep s =
     (if sep \<in> set s
      then [rev (tl (dropWhile (\<lambda>c. c \<noteq> sep) (rev s))), rev (takeWhile (\<lambda>c. c \<noteq> sep) (rev s))]
      else [s])"

text \<open>\<open>str\<close> of an integer, as the f-string of the log line formats the status code.\<close>

fun digits :: "nat \<Rightarrow> string" where
  "digits n =
     (if n < 10 then [''0123456789'' ! n]
      else digits (n div 10) @ [''0123456789'' ! (n mod 10)])"

definition str_int :: "int \<Rightarrow> string" where
  "str_int i = (if i < 0 then CHR ''-'' # digits (nat (- i)) else digits (nat i))"

subsection \<open>The libraries: session, adapters and the retry loop\<close>

text \<open>
  \<open>Retry(total, backoff_factor, status_forcelist)\<close> of urllib3, with the three fields
  that \<open>download\<close> sets, and the \<open>HTTPAdapter\<close> that holds it.
\<close>

record retry =
  total :: int
  backoff_factor :: rat
  status_forcelist :: "int list"

datatype adapter = HTTPAdapter (max_retries: retry)

text \<open>
  A session is its ordered dictionary of adapters, from URL prefix to adapter.
  \<open>requests.Session()\<close> starts with a default adapter (no retries) under each of the
  two prefixes.
\<close>

record session =
  adapters :: "(string \<times> adapter) list"

definition Session_new :: session where
  "Session_new =
     \<lparr>adapters =
        [(''https://'', HTTPAdapter \<lparr>total = 0, backoff_factor = 0, status_forcelist = []\<rparr>),
         (''http://'', HTTPAdapter \<lparr>total = 0, backoff_factor = 0, status_forcelist = []\<rparr>)]\<rparr>"

text \<open>\<open>d[k] = v\<close> on an ordered dictionary: replace in place, or append.\<close>

fun dict_set :: "'k \<Rightarrow> 'v \<Rightarrow> ('k \<times> 'v) list \<Rightarrow> ('k \<times> 'v) list" where
  "dict_set k v [] = [(k, v)]"
| "dict_set k v ((k', v') # d) = (if k' = k then (k, v) # d else (k', v') # dict_set k v d)"

text \<open>
  \<open>Session.mount(prefix, adapter)\<close>: store the adapter under the prefix, then move every
  shorter prefix behind it, so that longer prefixes are found first.
\<close>

definition mount :: "string \<Rightarrow> adapter \<Rightarrow> session \<Rightarrow> session" where
  "mount prefix a s =
     (let d = dict_set prefix a (adapters s)
      in s\<lparr>adapters := filter (\<lambda>(k, _). \<not> length k < length prefix) d
                        @ filter (\<lambda>(k, _). length k < length prefix) d\<rparr>)"

text \<open>\<open>Session.get_adapter(url)\<close>: the first adapter whose prefix starts the URL.\<close>

fun get_adapter :: "(string \<times> adapter) list \<Rightarrow> string \<Rightarrow> adapter option" where
  "get_adapter [] url = None"
| "get_adapter ((prefix, a) # d) url =
     (if startswith (lower url) (lower prefix) then Some a else get_adapter d url)"

text \<open>
  The retry loop of urllib3 for one request, as \<open>HTTPAdapter.send\<close> runs it. \<open>k\<close> is the
  index of the attempt and \<open>left\<close> the number of retries still allowed, \<open>total\<close> at the
  start: the first attempt is always made and costs nothing. An attempt that fails in
  the transport, or whose status is in the forcelist, uses up one retry; when none is
  left the loop raises, and \<open>requests\<close> turns that into \<open>ConnectionError\<close> for a transport
  failure and into \<open>RetryError\<close> for a forcelisted status. Any other response is
  returned as it is; the loop follows no redirect, since \<open>requests\<close> calls it with
  \<open>redirect=False\<close>. The second component is the number of attempts made.
  \<open>Retry-After\<close> headers are left out: the server sends none.
\<close>

function urlopen :: "(nat \<Rightarrow> attempt) \<Rightarrow> int list \<Rightarrow> nat \<Rightarrow> int \<Rightarrow> (exn + attempt) \<times> nat" where
  "urlopen srv forcelist k left =
     (case status_of (srv k) of
        None \<Rightarrow>
          if left \<le> 0 then (Inl ConnectionError, Suc k)
          else urlopen srv forcelist (Suc k) (left - 1)
      | Some status \<Rightarrow>
          if status \<in> set forcelist
          then (if left \<le> 0 then (Inl RetryError, Suc k)
                else urlopen srv forcelist (Suc k) (left - 1))
          else (Inr (srv k), Suc k))"
  by pat_completeness auto
termination
  by (relation "measure (\<lambda>(srv, forcelist, k, left). nat left)") auto

text \<open>
  \<open>Session.send\<close> for one request: pick the adapter of the URL, run its retry loop against
  the server, and record every attempt in the world.
\<close>

definition session_send :: "env \<Rightarrow> session \<Rightarrow> string \<Rightarrow> world \<Rightarrow> (exn + attempt) \<times> world" where
  "session_send e s url w =
     (case get_adapter (adapters s) url of
        None \<Rightarrow> (Inl InvalidSchema, w)
      | Some a \<Rightarrow>
          (let (r, n) = urlopen (server e url) (status_forcelist (max_retries a)) 0
                          (total (max_retries a))
           in (r, w\<lparr>sent := sent w @ replicate n url\<rparr>)))"

text \<open>
  \<open>Session.resolve_redirects\<close> and the reading of the body. A redirect is followed by a
  new request for its target, which goes through the adapter of the target with the
  full retry budget again; after \<open>max_redirects\<close> hops one more redirect raises
  \<open>TooManyRedirects\<close>. The body of the last response is read then, and a body that
  breaks off raises \<open>ChunkedEncodingError\<close>. The retry loop never returns a transport
  failure; the last equation is there for totality.
\<close>

fun resolve_redirects ::
  "env \<Rightarrow> session \<Rightarrow> nat \<Rightarrow> (exn + attempt) \<times> world \<Rightarrow> (exn + int \<times> bytes) \<times> world" where
  "resolve_redirects e s hops (Inl ex, w) = (Inl ex, w)"
| "resolve_redirects e s hops (Inr (Response status body), w) = (Inr (status, body), w)"
| "resolve_redirects e s hops (Inr (BrokenBody status), w) = (Inl ChunkedEncodingError, w)"
| "resolve_redirects e s 0 (Inr (Redirect status location), w) = (Inl TooManyRedirects, w)"
| "resolve_redirects e s (Suc hops) (Inr (Redirect status location), w) =
     resolve_redirects e s hops (session_send e s location w)"
| "resolve_redirects e s hops (Inr TransportError, w) = (Inl ConnectionError, w)"

definition max_redirects :: nat where
  "max_redirects = 30"

text \<open>\<open>session.get(url)\<close>: the request for the URL, then its redirects.\<close>

definition session_get :: "env \<Rightarrow> session \<Rightarrow> string \<Rightarrow> world \<Rightarrow> (exn + int \<times> bytes) \<times> world" where
  "session_get e s url w = resolve_redirects e s max_redirects (session_send e s url w)"

subsection \<open>The file system\<close>

text \<open>\<open>os.path.join\<close> on POSIX, which resolves a relative name against a directory.\<close>

definition path_join :: "string \<Rightarrow> string \<Rightarrow> string" where
  "path_join a b =
     (if startswith b ''/'' then b
      else if a = [] \<or> last a = CHR ''/'' then a @ b
      else a @ ''/'' @ b)"

text \<open>
  \<open>with open(name, "wb") as f: f.write(data)\<close>. A relative name is resolved against the
  working directory; the empty name cannot be opened.
\<close>

definition open_wb_write :: "string \<Rightarrow> bytes \<Rightarrow> world \<Rightarrow> exn + world" where
  "open_wb_write name data w =
     (if name = [] then Inl FileNotFoundError
      else Inr (w\<lparr>files := (files w)(path_join (cwd w) name \<mapsto> data)\<rparr>))"

subsection \<open>\<open>download\<close>\<close>

definition logging_error :: "string \<Rightarrow> world \<Rightarrow> world" where
  "logging_error msg w = w\<lparr>error_log := error_log w @ [msg]\<rparr>"

text \<open>
  The session argument defaults to \<open>None\<close> in the source, hence the option. The result
  is what the call raises or \<open>Inr ()\<close> for a normal return, the session as the call
  leaves it, and the world.
\<close>

definition download ::
  "env \<Rightarrow> string \<Rightarrow> int \<Rightarrow> rat \<Rightarrow> int list \<Rightarrow> session option \<Rightarrow> world
    \<Rightarrow> (exn + unit) \<times> session option \<times> world" where
  "download e url retries back_off_factor status_force_list session w =
     (if \<not> valid e url
      then (Inr (), session,
            logging_error (''The following line is not a valid URL: '' @ url) w)
      else
        (case session of
           None \<Rightarrow> (Inl AttributeError, None, w)
         | Some s0 \<Rightarrow>
            (let r = \<lparr>total = retries, backoff_factor = back_off_factor,
                      status_forcelist = status_force_list\<rparr>;
                 s1 = mount ''https://'' (HTTPAdapter r) s0;
                 s2 = mount ''http://'' (HTTPAdapter r) s1;
                 (response, w1) = session_get e s2 url w
             in (case response of
                   Inl ex \<Rightarrow>
                     if ex = ConnectionError
                     then (Inr (), Some s2,
                           logging_error
                             (''The following URL returns Connection error: '' @ url) w1)
                     else (Inl ex, Some s2, w1)
                 | Inr (status_code, content) \<Rightarrow>
                     if status_code \<in> set SPECIAL_ERROR_CODES
                     then (Inr (), Some s2,
                           logging_error (str_int status_code @ '' for: '' @ url) w1)
                     else
                       (case rsplit1 CHR ''/'' url of
                          [_, file_name] \<Rightarrow>
                            (case open_wb_write file_name content w1 of
                               Inl ex \<Rightarrow> (Inl ex, Some s2, w1)
                             | Inr w2 \<Rightarrow> (Inr (), Some s2, w2))
                        | _ \<Rightarrow> (Inl IndexError, Some s2, w1))))))"

subsection \<open>\<open>main\<close>, from the creation of the session on\<close>

text \<open>
  \<open>main\<close> has parsed the options into \<open>input_file\<close> and \<open>directory\<close>, checked that both
  paths exist and read the lines \<open>urls\<close>. It then creates one session and submits
  \<open>download(url, session=session)\<close> for each line, every other argument at its default.
  The tasks run here one after the other, in the order of submission, which is one of
  the schedules of the pool of \<open>MAX_THREADS\<close> workers. An exception of a task stays in its
  future, which nobody reads, so the next task runs all the same.
\<close>

fun run_tasks :: "env \<Rightarrow> string list \<Rightarrow> session option \<Rightarrow> world \<Rightarrow> session option \<times> world" where
  "run_tasks e [] s w = (s, w)"
| "run_tasks e (url # urls) s w =
     (let (r, s', w') =
            download e url MAX_RETRY_FOR_SESSION BACK_OFF_FACTOR (ERROR_CODES (codes e)) s w
      in run_tasks e urls s' w')"

definition main_run :: "env \<Rightarrow> string list \<Rightarrow> string \<Rightarrow> world \<Rightarrow> session option \<times> world" where
  "main_run e urls directory w = run_tasks e urls (Some Session_new) w"

text \<open>
  \<open>ThreadPoolExecutor.shutdown(wait, cancel_futures)\<close>, by what it leaves of the work
  items that no worker has taken up yet: they are dropped only when \<open>cancel_futures\<close> is
  set, and the workers run them otherwise.
\<close>

definition executor_shutdown :: "bool \<Rightarrow> bool \<Rightarrow> string list \<Rightarrow> string list" where
  "executor_shutdown wait cancel_futures pending = (if cancel_futures then [] else pending)"

text \<open>
  \<open>main\<close> with a \<open>KeyboardInterrupt\<close>. The interrupt reaches \<open>main\<close> while it waits for the pool
  at the end of the \<open>with\<close> block: every URL has been submitted, workers have taken up the
  first \<open>started\<close> tasks, and the other tasks are pending in the queue of the executor.
  The handler writes its message to the standard output, which the world does not
  record, and calls \<open>executor.shutdown(wait=False)\<close>, with \<open>cancel_futures\<close> at its default.
  The started tasks run to their end, and so does whatever the shutdown has left
  pending.
\<close>

definition main_interrupted ::
  "env \<Rightarrow> string list \<Rightarrow> string \<Rightarrow> nat \<Rightarrow> world \<Rightarrow> session option \<times> world" where
  "main_interrupted e urls directory started w =
     (let (s1, w1) = run_tasks e (take started urls) (Some Session_new) w;
          pending = executor_shutdown False False (drop started urls)
      in run_tasks e pending s1 w1)"

subsection \<open>Predicates of the statements\<close>

text \<open>
  A URL that one of the two mounted prefixes starts (the comparison ignores case, as
  \<open>get_adapter\<close> does), a session that has adapters under these two prefixes only, as
  \<open>requests.Session()\<close> and every session that \<open>download\<close> has worked on, and an
  attempt that the retry loop does not accept as the answer.
\<close>

definition http_url :: "string \<Rightarrow> bool" where
  "http_url url = (startswith (lower url) ''https://'' \<or> startswith (lower url) ''http://'')"

definition plain_session :: "session \<Rightarrow> bool" where
  "plain_session s = list_all (\<lambda>(p, a). p = ''https://'' \<or> p = ''http://'') (adapters s)"

definition retried :: "int list \<Rightarrow> attempt \<Rightarrow> bool" where
  "retried forcelist a =
     (case status_of a of None \<Rightarrow> True | Some status \<Rightarrow> status \<in> set forcelist)"

subsection \<open>Example environments\<close>

text \<open>
  The keys of \<open>requests.status_codes._codes\<close> and an excerpt of them, a stand-in for the
  validator that accepts what starts with one of the two schemes, an empty world, a
  list of 250 URLs, and servers that answer every attempt with 200, every attempt with
  500, every attempt with 508, the first attempt with a transport failure and the next
  ones with 200, and the first attempt with 503 and the next ones with 404.
\<close>

definition requests_codes :: "int list" where
  "requests_codes =
     [100, 101, 102, 103, 122,
      200, 201, 202, 203, 204, 205, 206, 207, 208, 226,
      300, 301, 302, 303, 304, 305, 306, 307, 308,
      400, 401, 402, 403, 404, 405, 406, 407, 408, 409, 410, 411, 412, 413, 414, 415,
      416, 417, 418, 421, 422, 423, 424, 425, 426, 428, 429, 431, 444, 449, 450, 451, 499,
      500, 501, 502, 503, 504, 505, 506, 507, 509, 510, 511]"

definition status_table :: "int list" where
  "status_table = [200, 301, 302, 400, 401, 403, 404, 408, 429, 500, 502, 503, 504]"

definition http_prefixed :: "string \<Rightarrow> bool" where
  "http_prefixed u = (startswith u ''http://'' \<or> startswith u ''https://'')"

definition world0 :: world where
  "world0 = \<lparr>error_log = [], files = Map.empty, sent = [], cwd = ''/home/user''\<rparr>"

definition env_ok :: env where
  "env_ok = \<lparr>valid = http_prefixed, server = (\<lambda>url k. Response 200 [137, 80]), codes = status_table\<rparr>"

definition env_500 :: env where
  "env_500 = \<lparr>valid = http_prefixed, server = (\<lambda>url k. Response 500 [60, 33]), codes = status_table\<rparr>"

definition env_508 :: env where
  "env_508 = \<lparr>valid = http_prefixed, server = (\<lambda>url k. Response 508 [60, 33]),
     codes = requests_codes\<rparr>"

definition gallery :: "string list" where
  "gallery = map (\<lambda>i. ''http://example.com/'' @ digits i @ ''.png'') [0..<250]"

definition env_dir :: env where
  "env_dir = \<lparr>valid = http_prefixed,
     server = (\<lambda>url k. if k = 0 then TransportError else Response 200 [60, 33]),
     codes = status_table\<rparr>"

definition env_503_404 :: env where
  "env_503_404 = \<lparr>valid = http_prefixed,
     server = (\<lambda>url k. if k = 0 then Response 503 [] else Response 404 [60, 33]),
     codes = status_table\<rparr>"

section \<open>The retry loop\<close>

declare urlopen.simps [simp del]

lemma urlopen_always_forcelisted:
  assumes "\<And>j. k \<le> j \<Longrightarrow> \<exists>c. status_of (srv j) = Some c \<and> c \<in> set fl"
  shows "urlopen srv fl k left = (Inl RetryError, Suc k + nat left)"
  using assms
proof (induction srv fl k left rule: urlopen.induct)
  case (1 srv fl k left)
  from "1.prems"[of k] obtain c where r: "status_of (srv k) = Some c" "c \<in> set fl" by auto
  show ?case
  proof (cases "left \<le> 0")
    case True
    with r show ?thesis by (subst urlopen.simps) simp
  next
    case False
    have "urlopen srv fl (Suc k) (left - 1) = (Inl RetryError, Suc (Suc k) + nat (left - 1))"
      using "1.IH"(2)[OF r(1) r(2) False] "1.prems" by simp
    moreover from False have "Suc (nat (left - 1)) = nat left" by simp
    moreover have "urlopen srv fl k left = urlopen srv fl (Suc k) (left - 1)"
      using r False by (subst urlopen.simps) simp
    ultimately show ?thesis by simp
  qed
qed

lemma urlopen_returns_unlisted:
  assumes "status_of (srv k) = Some st" and "st \<notin> set fl"
  shows "urlopen srv fl k left = (Inr (srv k), Suc k)"
  using assms by (subst urlopen.simps) simp

lemma urlopen_first_answer:
  assumes "\<And>j. j < n \<Longrightarrow> retried fl (srv (k + j))"
    and "n \<le> nat left"
    and "status_of (srv (k + n)) = Some st"
    and "st \<notin> set fl"
  shows "urlopen srv fl k left = (Inr (srv (k + n)), Suc (k + n))"
  using assms
proof (induction n arbitrary: k left)
  case 0
  then show ?case by (simp add: urlopen_returns_unlisted)
next
  case (Suc n)
  from Suc.prems(1)[of 0] have r: "retried fl (srv k)" by simp
  from Suc.prems(2) have pos: "\<not> left \<le> 0" by simp
  have step: "urlopen srv fl k left = urlopen srv fl (Suc k) (left - 1)"
    using r pos by (subst urlopen.simps) (simp add: retried_def split: option.splits)
  have "urlopen srv fl (Suc k) (left - 1) = (Inr (srv (Suc k + n)), Suc (Suc k + n))"
  proof (rule Suc.IH)
    fix j assume "j < n"
    with Suc.prems(1)[of "Suc j"] show "retried fl (srv (Suc k + j))" by simp
  next
    from Suc.prems(2) show "n \<le> nat (left - 1)" by simp
  next
    from Suc.prems(3) show "status_of (srv (Suc k + n)) = Some st" by simp
  next
    from Suc.prems(4) show "st \<notin> set fl" .
  qed
  with step show ?case by simp
qed

section \<open>Sessions and adapters\<close>

lemma map_of_dict_set: "map_of (dict_set k v d) = (map_of d)(k \<mapsto> v)"
  by (induction d) (auto simp: fun_eq_iff)

lemma keys_dict_set: "set (map fst (dict_set k v d)) = insert k (set (map fst d))"
proof (induction d)
  case Nil
  show ?case by simp
next
  case (Cons x d)
  obtain k' v' where x: "x = (k', v')" by (cases x)
  show ?case
  proof (cases "k' = k")
    case True
    with x show ?thesis by simp
  next
    case False
    with x have "set (map fst (dict_set k v (x # d))) = insert k' (set (map fst (dict_set k v d)))"
      by simp
    also have "\<dots> = insert k' (insert k (set (map fst d)))"
      using Cons.IH by simp
    finally show ?thesis using x by auto
  qed
qed

lemma map_of_filter_key:
  "map_of (filter (\<lambda>(k, _). P k) d) x = (if P x then map_of d x else None)"
  by (induction d) auto

lemma map_of_reorder:
  "map_of (filter (\<lambda>(k, _). \<not> P k) d @ filter (\<lambda>(k, _). P k) d) = map_of d"
proof
  fix x
  have "map_of (filter (\<lambda>(k, _). \<not> P k) d) x = (if \<not> P x then map_of d x else None)"
    using map_of_filter_key[of "\<lambda>k. \<not> P k" d x] by simp
  then show "map_of (filter (\<lambda>(k, _). \<not> P k) d @ filter (\<lambda>(k, _). P k) d) x = map_of d x"
    by (simp add: map_add_def map_of_filter_key split: option.splits)
qed

lemma map_of_mount:
  "map_of (adapters (mount prefix a s)) = (map_of (adapters s))(prefix \<mapsto> a)"
  unfolding mount_def Let_def
  using map_of_reorder[of "\<lambda>k. length k < length prefix" "dict_set prefix a (adapters s)"]
  by (simp add: map_of_dict_set)

lemma keys_mount:
  "fst ` set (adapters (mount prefix a s)) = insert prefix (fst ` set (adapters s))"
proof -
  have "set (adapters (mount prefix a s)) = set (dict_set prefix a (adapters s))"
    by (auto simp: mount_def Let_def)
  then have "fst ` set (adapters (mount prefix a s)) = set (map fst (dict_set prefix a (adapters s)))"
    by simp
  also have "\<dots> = insert prefix (set (map fst (adapters s)))"
    by (rule keys_dict_set)
  finally show ?thesis by simp
qed

lemma lower_https: "lower ''https://'' = ''https://''"
  by code_simp

lemma lower_http: "lower ''http://'' = ''http://''"
  by code_simp

lemma not_both_prefixes:
  "startswith u ''https://'' \<Longrightarrow> \<not> startswith u ''http://''"
proof
  assume a: "startswith u ''https://''" and b: "startswith u ''http://''"
  have l8: "length ''https://'' = 8" and l7: "length ''http://'' = 7" by simp_all
  from a have a': "take 8 u = ''https://''" unfolding startswith_def l8 .
  from b have b': "take 7 u = ''http://''" unfolding startswith_def l7 .
  have "take 7 u = take 7 (take 8 u)" by simp
  also have "\<dots> = ''https:/''" unfolding a' by simp
  finally show False using b' by simp
qed

lemma get_adapter_map_of:
  assumes "\<And>p. p \<in> fst ` set d \<Longrightarrow> p = ''https://'' \<or> p = ''http://''"
    and "startswith (lower url) q" and "q = ''https://'' \<or> q = ''http://''"
  shows "get_adapter d url = map_of d q"
  using assms(1)
proof (induction d)
  case Nil
  show ?case by simp
next
  case (Cons x d)
  obtain p a where x: "x = (p, a)" by (cases x)
  from Cons.prems[of p] x have p: "p = ''https://'' \<or> p = ''http://''" by simp
  have IH: "get_adapter d url = map_of d q"
    using Cons.IH Cons.prems by simp
  have "startswith (lower url) (lower p) \<longleftrightarrow> p = q"
    using p assms(2,3) not_both_prefixes[of "lower url"]
    by (auto simp: lower_https lower_http)
  with x IH show ?case by auto
qed

lemma get_adapter_after_mounts:
  assumes "plain_session s" and "http_url url"
  shows "get_adapter (adapters (mount ''http://'' a (mount ''https://'' a s))) url = Some a"
proof -
  let ?d = "adapters (mount ''http://'' a (mount ''https://'' a s))"
  have keys: "\<And>p. p \<in> fst ` set ?d \<Longrightarrow> p = ''https://'' \<or> p = ''http://''"
    using assms(1) by (auto simp: keys_mount plain_session_def list_all_iff)
  from assms(2) obtain q where q: "startswith (lower url) q" "q = ''https://'' \<or> q = ''http://''"
    by (auto simp: http_url_def)
  have "get_adapter ?d url = map_of ?d q"
    using keys q by (rule get_adapter_map_of)
  also have "\<dots> = Some a"
    using q(2) by (auto simp: map_of_mount)
  finally show ?thesis .
qed

lemma session_send_http:
  assumes "plain_session s" and "http_url url"
  shows "session_send e (mount ''http://'' (HTTPAdapter r) (mount ''https://'' (HTTPAdapter r) s)) url w =
         (fst (urlopen (server e url) (status_forcelist r) 0 (total r)),
          w\<lparr>sent := sent w @ replicate (snd (urlopen (server e url) (status_forcelist r) 0 (total r))) url\<rparr>)"
  using get_adapter_after_mounts[OF assms, of "HTTPAdapter r"]
  by (simp add: session_send_def split_beta)

lemma session_send_frame:
  "files (snd (session_send e s url w)) = files w \<and>
   error_log (snd (session_send e s url w)) = error_log w \<and>
   cwd (snd (session_send e s url w)) = cwd w"
  by (simp add: session_send_def split_beta split: option.splits)

lemma resolve_redirects_frame:
  "files (snd (resolve_redirects e s hops rw)) = files (snd rw) \<and>
   error_log (snd (resolve_redirects e s hops rw)) = error_log (snd rw) \<and>
   cwd (snd (resolve_redirects e s hops rw)) = cwd (snd rw)"
  by (induction e s hops rw rule: resolve_redirects.induct) (simp_all add: session_send_frame)

lemma session_get_frame:
  "files (snd (session_get e s url w)) = files w \<and>
   error_log (snd (session_get e s url w)) = error_log w \<and>
   cwd (snd (session_get e s url w)) = cwd w"
  by (simp add: session_get_def resolve_redirects_frame session_send_frame)

lemma rsplit1_trailing:
  assumes "url \<noteq> []" and "last url = sep"
  shows "rsplit1 sep url = [butlast url, []]"
proof -
  from assms obtain ys where u: "url = ys @ [sep]"
    by (metis append_butlast_last_id)
  have "rsplit1 sep (ys @ [sep]) = [butlast (ys @ [sep]), []]"
    by (simp add: rsplit1_def)
  with u show ?thesis by simp
qed

section \<open>Helper facts on \<open>download\<close>\<close>

lemma special_not_in_ERROR_CODES: "c = 403 \<or> c = 404 \<Longrightarrow> c \<notin> set (ERROR_CODES cs)"
  by (auto simp: ERROR_CODES_def SPECIAL_ERROR_CODES_def)

lemma ERROR_CODES_set: "set (ERROR_CODES cs) = {c \<in> set cs. 400 \<le> c} - {403, 404}"
  by (auto simp: ERROR_CODES_def SPECIAL_ERROR_CODES_def)

subsection \<open>Every session of a run has the two standard prefixes only\<close>

lemma plain_session_keys:
  "plain_session s \<longleftrightarrow> fst ` set (adapters s) \<subseteq> {''https://'', ''http://''}"
  by (auto simp: plain_session_def list_all_iff)

lemma plain_session_new: "plain_session Session_new"
  by code_simp

lemma plain_session_mounts:
  assumes "plain_session s"
  shows "plain_session (mount ''http://'' a (mount ''https://'' b s))"
  using assms by (auto simp: plain_session_keys keys_mount)

lemma download_session:
  "fst (snd (download e url retries bof sfl (Some s) w)) =
     (if valid e url
      then Some (mount ''http://'' (HTTPAdapter \<lparr>total = retries, backoff_factor = bof, status_forcelist = sfl\<rparr>)
             (mount ''https://'' (HTTPAdapter \<lparr>total = retries, backoff_factor = bof, status_forcelist = sfl\<rparr>) s))
      else Some s)"
  by (simp add: download_def Let_def split: prod.splits sum.splits list.splits)

lemma plain_session_download:
  assumes "plain_session s"
  shows "\<exists>s'. fst (snd (download e url retries bof sfl (Some s) w)) = Some s' \<and> plain_session s'"
  using assms by (simp add: download_session plain_session_mounts)

lemma plain_session_run_tasks:
  assumes "plain_session s"
  shows "\<exists>s'. fst (run_tasks e urls (Some s) w) = Some s' \<and> plain_session s'"
  using assms
proof (induction urls arbitrary: s w)
  case Nil
  then show ?case by simp
next
  case (Cons url urls)
  let ?d = "download e url MAX_RETRY_FOR_SESSION BACK_OFF_FACTOR (ERROR_CODES (codes e)) (Some s) w"
  from plain_session_download[OF Cons.prems]
  obtain s' where s': "fst (snd ?d) = Some s'" "plain_session s'" by blast
  have "run_tasks e (url # urls) (Some s) w = run_tasks e urls (Some s') (snd (snd ?d))"
    using s'(1) by (simp add: split_beta)
  with Cons.IH[OF s'(2)] show ?case by simp
qed

subsection \<open>Runs\<close>

lemma run_tasks_append:
  "run_tasks e (xs @ ys) s w = run_tasks e ys (fst (run_tasks e xs s w)) (snd (run_tasks e xs s w))"
  by (induction xs arbitrary: s w) (simp_all add: split_beta)

lemma main_interrupted_runs_all:
  "main_interrupted e urls directory started w = main_run e urls directory w"
proof -
  have "run_tasks e (take started urls @ drop started urls) (Some Session_new) w =
        run_tasks e (drop started urls)
          (fst (run_tasks e (take started urls) (Some Session_new) w))
          (snd (run_tasks e (take started urls) (Some Session_new) w))"
    by (rule run_tasks_append)
  then show ?thesis
    by (simp add: main_interrupted_def main_run_def executor_shutdown_def split_beta)
qed

lemma ERROR_CODES_requests: "ERROR_CODES requests_codes =
     [400, 401, 402, 405, 406, 407, 408, 409, 410, 411, 412, 413, 414, 415,
      416, 417, 418, 421, 422, 423, 424, 425, 426, 428, 429, 431, 444, 449, 450, 451, 499,
      500, 501, 502, 503, 504, 505, 506, 507, 509, 510, 511]"
  by (simp add: ERROR_CODES_def requests_codes_def SPECIAL_ERROR_CODES_def)

lemma download_sent:
  assumes "valid e url"
  shows "sent (snd (snd (download e url retries bof sfl (Some s) w))) =
         sent (snd (session_get e
            (mount ''http://'' (HTTPAdapter \<lparr>total = retries, backoff_factor = bof, status_forcelist = sfl\<rparr>)
              (mount ''https://'' (HTTPAdapter \<lparr>total = retries, backoff_factor = bof, status_forcelist = sfl\<rparr>) s))
            url w))"
  using assms
  by (simp add: download_def Let_def logging_error_def open_wb_write_def
           split: prod.splits sum.splits list.splits)

lemma below_400_not_in_ERROR_CODES: "c < 400 \<Longrightarrow> c \<notin> set (ERROR_CODES cs)"
  by (auto simp: ERROR_CODES_def)

lemma download_sent_first_answer:
  assumes "valid e url" and "http_url url" and "plain_session s"
    and "server e url 0 = Response st body" and "st < 400"
  shows "sent (snd (snd (download e url retries bof (ERROR_CODES (codes e)) (Some s) w))) = sent w @ [url]"
proof -
  let ?r = "\<lparr>total = retries, backoff_factor = bof, status_forcelist = ERROR_CODES (codes e)\<rparr>"
  let ?s2 = "mount ''http://'' (HTTPAdapter ?r) (mount ''https://'' (HTTPAdapter ?r) s)"
  have "urlopen (server e url) (ERROR_CODES (codes e)) 0 retries = (Inr (server e url 0), Suc 0)"
    using assms(4,5) by (intro urlopen_returns_unlisted[where st = st]) (simp_all add: below_400_not_in_ERROR_CODES)
  then have "session_send e ?s2 url w = (Inr (Response st body), w\<lparr>sent := sent w @ [url]\<rparr>)"
    using session_send_http[OF assms(3,2), of e ?r w] assms(4) by simp
  then have "session_get e ?s2 url w = (Inr (st, body), w\<lparr>sent := sent w @ [url]\<rparr>)"
    by (simp add: session_get_def)
  then show ?thesis using download_sent[OF assms(1), of retries bof "ERROR_CODES (codes e)" s w] by simp
qed

lemma run_tasks_sent:
  assumes "\<And>u. u \<in> set urls \<Longrightarrow> valid e u \<and> http_url u
              \<and> (\<exists>st body. server e u 0 = Response st body \<and> st < 400)"
    and "plain_session s"
  shows "sent (snd (run_tasks e urls (Some s) w)) = sent w @ urls"
  using assms
proof (induction urls arbitrary: s w)
  case Nil
  show ?case by simp
next
  case (Cons url urls)
  let ?d = "download e url MAX_RETRY_FOR_SESSION BACK_OFF_FACTOR (ERROR_CODES (codes e)) (Some s) w"
  from Cons.prems(1)[of url] obtain st body where u: "valid e url" "http_url url"
    "server e url 0 = Response st body" "st < 400" by auto
  from plain_session_download[OF Cons.prems(2)]
  obtain s' where s': "fst (snd ?d) = Some s'" "plain_session s'" by blast
  have sent1: "sent (snd (snd ?d)) = sent w @ [url]"
    using download_sent_first_answer[OF u(1,2) Cons.prems(2) u(3,4)] .
  have "run_tasks e (url # urls) (Some s) w = run_tasks e urls (Some s') (snd (snd ?d))"
    using s'(1) by (simp add: split_beta)
  moreover have "sent (snd (run_tasks e urls (Some s') (snd (snd ?d)))) = sent (snd (snd ?d)) @ urls"
    using Cons.prems(1) s'(2) by (intro Cons.IH) auto
  ultimately show ?case using sent1 by simp
qed

lemma startswith_append: "startswith x p \<Longrightarrow> startswith (x @ y) p"
proof -
  assume a: "startswith x p"
  then have "length (take (length p) x) = length p"
    by (simp add: startswith_def)
  then have "length p \<le> length x" by simp
  with a show ?thesis by (simp add: startswith_def)
qed

lemma gallery_urls:
  assumes "u \<in> set gallery"
  shows "valid env_ok u \<and> http_url u \<and> (\<exists>st body. server env_ok u 0 = Response st body \<and> st < 400)"
proof -
  from assms have "u \<in> (\<lambda>i. ''http://example.com/'' @ digits i @ ''.png'') ` set [0..<250]"
    by (simp only: gallery_def set_map)
  then obtain i where u: "u = ''http://example.com/'' @ (digits i @ ''.png'')"
    by (rule imageE)
  have p: "startswith ''http://example.com/'' ''http://''" by code_simp
  have q: "startswith (lower ''http://example.com/'') ''http://''" by code_simp
  have "startswith u ''http://''" unfolding u using p by (rule startswith_append)
  moreover have "startswith (lower u) ''http://''"
    unfolding u lower_def map_append using q[unfolded lower_def] by (rule startswith_append)
  ultimately show ?thesis by (simp add: env_ok_def http_prefixed_def http_url_def)
qed

lemma run_tasks_policy:
  fixes e :: env
  defines "a \<equiv> HTTPAdapter \<lparr>total = MAX_RETRY_FOR_SESSION, backoff_factor = BACK_OFF_FACTOR,
                            status_forcelist = ERROR_CODES (codes e)\<rparr>"
  assumes "(\<exists>u \<in> set urls. valid e u)
           \<or> (map_of (adapters s) ''https://'' = Some a \<and> map_of (adapters s) ''http://'' = Some a)"
  shows "\<exists>s'. fst (run_tasks e urls (Some s) w) = Some s'
              \<and> map_of (adapters s') ''https://'' = Some a
              \<and> map_of (adapters s') ''http://'' = Some a"
  using assms(2)
proof (induction urls arbitrary: s w)
  case Nil
  then show ?case by simp
next
  case (Cons url urls)
  let ?d = "download e url MAX_RETRY_FOR_SESSION BACK_OFF_FACTOR (ERROR_CODES (codes e)) (Some s) w"
  let ?m = "mount ''http://'' a (mount ''https://'' a s)"
  have step: "run_tasks e (url # urls) (Some s) w = run_tasks e urls (fst (snd ?d)) (snd (snd ?d))"
    by (simp add: split_beta)
  show ?case
  proof (cases "valid e url")
    case True
    then have d: "fst (snd ?d) = Some ?m"
      unfolding a_def by (simp add: download_session)
    have "map_of (adapters ?m) ''https://'' = Some a \<and> map_of (adapters ?m) ''http://'' = Some a"
      by (simp add: map_of_mount)
    then have "\<exists>s'. fst (run_tasks e urls (Some ?m) (snd (snd ?d))) = Some s'
              \<and> map_of (adapters s') ''https://'' = Some a
              \<and> map_of (adapters s') ''http://'' = Some a"
      by (intro Cons.IH) simp
    with step d show ?thesis by simp
  next
    case False
    then have d: "fst (snd ?d) = Some s"
      by (simp add: download_session)
    from False Cons.prems
    have "(\<exists>u \<in> set urls. valid e u)
           \<or> (map_of (adapters s) ''https://'' = Some a \<and> map_of (adapters s) ''http://'' = Some a)"
      by auto
    then have "\<exists>s'. fst (run_tasks e urls (Some s) (snd (snd ?d))) = Some s'
              \<and> map_of (adapters s') ''https://'' = Some a
              \<and> map_of (adapters s') ''http://'' = Some a"
      by (rule Cons.IH)
    with step d show ?thesis by simp
  qed
qed

section \<open>Properties of \<open>download\<close> and \<open>main\<close>\<close>

subsection \<open>Where the file is written\<close>

text \<open>
  Claim C1 says that the file of a successful download is placed in the destination
  directory given to the run, under the last path segment of the URL. The name is as
  claimed, but \<open>download\<close> opens the bare name and \<open>main\<close> hands \<open>directory\<close> to nobody: with
  the process in \<open>/home/user\<close> and the destination \<open>/tmp/out\<close>, the body of
  \<open>http://example.com/a.png\<close> is written to \<open>/home/user/a.png\<close> and nothing appears in
  \<open>/tmp/out\<close>.
\<close>

theorem C1_file_lands_in_working_directory:
  "cwd world0 = ''/home/user''
   \<and> fst (download env_ok ''http://example.com/a.png'' MAX_RETRY_FOR_SESSION BACK_OFF_FACTOR
            (ERROR_CODES (codes env_ok)) (Some Session_new) world0) = Inr ()
   \<and> files (snd (main_run env_ok [''http://example.com/a.png''] ''/tmp/out'' world0))
        ''/home/user/a.png'' = Some [137, 80]
   \<and> files (snd (main_run env_ok [''http://example.com/a.png''] ''/tmp/out'' world0))
        ''/tmp/out/a.png'' = None"
  by code_simp

subsection \<open>Failures that are logged and failures that escape\<close>

text \<open>
  Claim C2 says that no exception leaves \<open>download\<close> and that every exhausted-retry HTTP
  failure is logged with its URL. Only \<open>ConnectionError\<close> is caught. For a server that
  answers 500 to every attempt the retry loop ends in \<open>RetryError\<close>, which leaves
  \<open>download\<close>; no line is logged, neither by \<open>download\<close> nor by \<open>main\<close>.
\<close>

theorem C2_retry_error_escapes:
  "fst (download env_500 ''http://example.com/a.png'' MAX_RETRY_FOR_SESSION BACK_OFF_FACTOR
          (ERROR_CODES (codes env_500)) (Some Session_new) world0) = Inl RetryError
   \<and> error_log (snd (snd (download env_500 ''http://example.com/a.png'' MAX_RETRY_FOR_SESSION
          BACK_OFF_FACTOR (ERROR_CODES (codes env_500)) (Some Session_new) world0))) = []
   \<and> error_log (snd (main_run env_500 [''http://example.com/a.png''] ''/tmp/out'' world0)) = []"
  by code_simp

subsection \<open>The number of attempts\<close>

text \<open>
  Claim C3 says that a URL that answers every attempt with a status of 400 or more
  other than 403 and 404 is fetched exactly \<open>max_attempts\<close> times, the first attempt
  included, and ends as RetriesExhausted. As stated it fails twice. With the default of
  5 retries the server that always answers 500 is asked 6 times, and the call ends by
  raising \<open>RetryError\<close>. And the server that always answers 508, a code that the table of
  \<open>requests\<close> does not name, is asked once: the code is not in the retry list, and the body
  of the response is saved as the file.
\<close>

theorem C3_six_attempts_counterexample:
  "MAX_RETRY_FOR_SESSION = 5
   \<and> length (sent (snd (snd (download env_500 ''http://example.com/c.png'' MAX_RETRY_FOR_SESSION
          BACK_OFF_FACTOR (ERROR_CODES (codes env_500)) (Some Session_new) world0)))) = 6
   \<and> fst (download env_500 ''http://example.com/c.png'' MAX_RETRY_FOR_SESSION
          BACK_OFF_FACTOR (ERROR_CODES (codes env_500)) (Some Session_new) world0) = Inl RetryError
   \<and> (400::int) \<le> 508 \<and> 508 \<notin> set SPECIAL_ERROR_CODES
   \<and> length (sent (snd (snd (download env_508 ''http://example.com/c.png'' MAX_RETRY_FOR_SESSION
          BACK_OFF_FACTOR (ERROR_CODES (codes env_508)) (Some Session_new) world0)))) = 1
   \<and> files (snd (snd (download env_508 ''http://example.com/c.png'' MAX_RETRY_FOR_SESSION
          BACK_OFF_FACTOR (ERROR_CODES (codes env_508)) (Some Session_new) world0)))
        ''/home/user/c.png'' = Some [60, 33]"
  by code_simp

text \<open>
  Claim C3 as amended. The retry value counts retries, not attempts, and the general
  retryable codes are those that the table names. Take a URL that passes validation
  and has the scheme http or https, a session with the two standard prefixes only, as
  every session of a run is, and a retry value that is not negative. If every attempt
  brings back a status that the table names, that is 400 or more and that is neither
  403 nor 404, then exactly \<open>retries + 1\<close> attempts are made, the first one and \<open>retries\<close>
  retries, and no file is written.
\<close>

theorem C3_attempts_retries_plus_one:
  fixes e :: env and url :: string and retries :: int and bof :: rat
    and s :: session and w :: world
  defines "W \<equiv> snd (snd (download e url retries bof (ERROR_CODES (codes e)) (Some s) w))"
  assumes "valid e url" and "http_url url" and "plain_session s" and "0 \<le> retries"
    and "\<forall>k. \<exists>c. status_of (server e url k) = Some c
               \<and> c \<in> set (codes e) \<and> 400 \<le> c \<and> c \<noteq> 403 \<and> c \<noteq> 404"
  shows "sent W = sent w @ replicate (nat (retries + 1)) url
       \<and> int (length (sent W)) = int (length (sent w)) + (retries + 1)
       \<and> files W = files w"
proof -
  let ?fl = "ERROR_CODES (codes e)"
  let ?r = "\<lparr>total = retries, backoff_factor = bof, status_forcelist = ?fl\<rparr>"
  let ?s2 = "mount ''http://'' (HTTPAdapter ?r) (mount ''https://'' (HTTPAdapter ?r) s)"
  have listed: "\<exists>c. status_of (server e url j) = Some c \<and> c \<in> set ?fl" for j
    using assms(6) by (auto simp: ERROR_CODES_set)
  have "urlopen (server e url) ?fl 0 retries = (Inl RetryError, Suc 0 + nat retries)"
    using listed by (intro urlopen_always_forcelisted) simp
  moreover have n: "Suc 0 + nat retries = nat (retries + 1)"
    using assms(5) by simp
  ultimately have "session_send e ?s2 url w =
      (Inl RetryError, w\<lparr>sent := sent w @ replicate (nat (retries + 1)) url\<rparr>)"
    using session_send_http[OF assms(4,3), of e ?r w] by simp
  then have "session_get e ?s2 url w =
      (Inl RetryError, w\<lparr>sent := sent w @ replicate (nat (retries + 1)) url\<rparr>)"
    by (simp add: session_get_def)
  then have "download e url retries bof ?fl (Some s) w =
      (Inl RetryError, Some ?s2, w\<lparr>sent := sent w @ replicate (nat (retries + 1)) url\<rparr>)"
    using assms(2) by (simp add: download_def Let_def)
  then have "sent W = sent w @ replicate (nat (retries + 1)) url" and "files W = files w"
    unfolding W_def by simp_all
  moreover from this(1) assms(5)
  have "int (length (sent W)) = int (length (sent w)) + (retries + 1)" by simp
  ultimately show ?thesis by simp
qed

theorem C3_attempts_witness:
  "valid env_500 ''http://example.com/c.png''
   \<and> http_url ''http://example.com/c.png''
   \<and> plain_session Session_new
   \<and> (\<forall>k. \<exists>c. status_of (server env_500 ''http://example.com/c.png'' k) = Some c
               \<and> c \<in> set (codes env_500) \<and> 400 \<le> c \<and> c \<noteq> 403 \<and> c \<noteq> 404)
   \<and> sent (snd (snd (download env_500 ''http://example.com/c.png'' 5 (1 / 2)
             (ERROR_CODES (codes env_500)) (Some Session_new) world0)))
       = replicate 6 ''http://example.com/c.png''
   \<and> files (snd (snd (download env_500 ''http://example.com/c.png'' 5 (1 / 2)
             (ERROR_CODES (codes env_500)) (Some Session_new) world0))) = Map.empty"
proof -
  have h1: "valid env_500 ''http://example.com/c.png''" by code_simp
  have h2: "http_url ''http://example.com/c.png''" by code_simp
  have h3: "plain_session Session_new" by code_simp
  have h4: "(0::int) \<le> 5" by simp
  have m: "500 \<in> set (codes env_500)" by code_simp
  have h5: "\<forall>k. \<exists>c. status_of (server env_500 ''http://example.com/c.png'' k) = Some c
               \<and> c \<in> set (codes env_500) \<and> 400 \<le> c \<and> c \<noteq> 403 \<and> c \<noteq> 404"
    using m by (simp add: env_500_def)
  have n: "nat (5 + 1) = (6::nat)" by simp
  show ?thesis
    using C3_attempts_retries_plus_one [OF h1 h2 h3 h4 h5, where bof = "1 / 2" and w = world0]
      h1 h2 h3 h5
    unfolding n by (simp add: world0_def)
qed

subsection \<open>The special codes 403 and 404\<close>

text \<open>
  Claim C4 says that a fetch whose final status is 403 or 404 makes exactly one network
  attempt. As stated it fails when an earlier attempt was retried: a server that
  answers 503 and then 404 is asked twice, and the final status is 404.
\<close>

theorem C4_final_404_counterexample:
  "fst (download env_503_404 ''http://example.com/b.png'' MAX_RETRY_FOR_SESSION BACK_OFF_FACTOR
          (ERROR_CODES status_table) (Some Session_new) world0) = Inr ()
   \<and> error_log (snd (snd (download env_503_404 ''http://example.com/b.png'' MAX_RETRY_FOR_SESSION
          BACK_OFF_FACTOR (ERROR_CODES status_table) (Some Session_new) world0)))
       = [''404 for: http://example.com/b.png'']
   \<and> sent (snd (snd (download env_503_404 ''http://example.com/b.png'' MAX_RETRY_FOR_SESSION
          BACK_OFF_FACTOR (ERROR_CODES status_table) (Some Session_new) world0)))
       = [''http://example.com/b.png'', ''http://example.com/b.png'']"
  by code_simp

text \<open>
  Claim C4 as amended. A 403 or 404 response is never retried: the fetch stops at the
  attempt that received it. If the \<open>n\<close> attempts before it were all retried (transport
  failure or a status of the retry list), exactly \<open>n + 1\<close> attempts are made, hence
  exactly one when the code answers the first attempt. The call logs the code with the
  URL and returns; no file is written (the world changes in its log and its sent
  requests only).
\<close>

theorem C4_special_code_ends_fetch:
  assumes "valid e url" and "http_url url" and "plain_session s"
    and "\<forall>j<n. retried (ERROR_CODES (codes e)) (server e url j)"
    and "n \<le> nat retries"
    and "server e url n = Response c body"
    and "c = 403 \<or> c = 404"
  shows "download e url retries bof (ERROR_CODES (codes e)) (Some s) w =
           (Inr (),
            Some (mount ''http://''
                   (HTTPAdapter \<lparr>total = retries, backoff_factor = bof,
                                 status_forcelist = ERROR_CODES (codes e)\<rparr>)
                   (mount ''https://''
                     (HTTPAdapter \<lparr>total = retries, backoff_factor = bof,
                                   status_forcelist = ERROR_CODES (codes e)\<rparr>) s)),
            w\<lparr>error_log := error_log w @ [str_int c @ '' for: '' @ url],
              sent := sent w @ replicate (Suc n) url\<rparr>)"
proof -
  let ?r = "\<lparr>total = retries, backoff_factor = bof, status_forcelist = ERROR_CODES (codes e)\<rparr>"
  let ?s2 = "mount ''http://'' (HTTPAdapter ?r) (mount ''https://'' (HTTPAdapter ?r) s)"
  have "urlopen (server e url) (ERROR_CODES (codes e)) 0 retries
          = (Inr (server e url (0 + n)), Suc (0 + n))"
  proof (rule urlopen_first_answer)
    fix j assume "j < n"
    with assms(4) show "retried (ERROR_CODES (codes e)) (server e url (0 + j))" by simp
  next
    show "n \<le> nat retries" by (rule assms(5))
  next
    show "status_of (server e url (0 + n)) = Some c" using assms(6) by simp
  next
    show "c \<notin> set (ERROR_CODES (codes e))" using assms(7) by (rule special_not_in_ERROR_CODES)
  qed
  then have "session_send e ?s2 url w
       = (Inr (Response c body), w\<lparr>sent := sent w @ replicate (Suc n) url\<rparr>)"
    using session_send_http[OF assms(3,2), of e ?r w] assms(6) by simp
  then have "session_get e ?s2 url w
       = (Inr (c, body), w\<lparr>sent := sent w @ replicate (Suc n) url\<rparr>)"
    by (simp add: session_get_def)
  moreover have "c \<in> set SPECIAL_ERROR_CODES"
    using assms(7) by (auto simp: SPECIAL_ERROR_CODES_def)
  ultimately show ?thesis
    using assms(1) by (simp add: download_def Let_def logging_error_def)
qed

theorem C4_special_code_witness:
  "valid env_503_404 ''http://example.com/b.png''
   \<and> http_url ''http://example.com/b.png''
   \<and> plain_session Session_new
   \<and> retried (ERROR_CODES (codes env_503_404)) (server env_503_404 ''http://example.com/b.png'' 0)
   \<and> server env_503_404 ''http://example.com/b.png'' 1 = Response 404 [60, 33]
   \<and> fst (download env_503_404 ''http://example.com/b.png'' 5 (1 / 2)
            (ERROR_CODES (codes env_503_404)) (Some Session_new) world0) = Inr ()
   \<and> error_log (snd (snd (download env_503_404 ''http://example.com/b.png'' 5 (1 / 2)
            (ERROR_CODES (codes env_503_404)) (Some Session_new) world0)))
       = [''404 for: http://example.com/b.png'']
   \<and> sent (snd (snd (download env_503_404 ''http://example.com/b.png'' 5 (1 / 2)
            (ERROR_CODES (codes env_503_404)) (Some Session_new) world0)))
       = replicate 2 ''http://example.com/b.png''
   \<and> files (snd (snd (download env_503_404 ''http://example.com/b.png'' 5 (1 / 2)
            (ERROR_CODES (codes env_503_404)) (Some Session_new) world0))) = Map.empty"
proof -
  have h1: "valid env_503_404 ''http://example.com/b.png''" by code_simp
  have h2: "http_url ''http://example.com/b.png''" by code_simp
  have h3: "plain_session Session_new" by code_simp
  have h0: "retried (ERROR_CODES (codes env_503_404)) (server env_503_404 ''http://example.com/b.png'' 0)"
    by code_simp
  have h4: "\<forall>j<1. retried (ERROR_CODES (codes env_503_404)) (server env_503_404 ''http://example.com/b.png'' j)"
  proof (intro allI impI)
    fix j :: nat assume "j < 1"
    then have "j = 0" by simp
    with h0 show "retried (ERROR_CODES (codes env_503_404)) (server env_503_404 ''http://example.com/b.png'' j)"
      by simp
  qed
  have h5: "1 \<le> nat 5" by simp
  have h6: "server env_503_404 ''http://example.com/b.png'' 1 = Response 404 [60, 33]" by code_simp
  have h7: "(404::int) = 403 \<or> (404::int) = 404" by simp
  have s: "str_int 404 = ''404''" by code_simp
  have n: "Suc 1 = 2" by simp
  show ?thesis
    using C4_special_code_ends_fetch [OF h1 h2 h3 h4 h5 h6 h7, where bof = "1 / 2" and w = world0]
      h1 h2 h3 h0 h6 s
    unfolding n by (simp add: world0_def)
qed

subsection \<open>The retry list\<close>

text \<open>
  Claim C5 says that the list handed to the retry policy equals all 4xx and 5xx status
  codes without 403 and 404. As stated it fails: the list is drawn from the table of
  \<open>requests\<close>, and 508 and 599 are 5xx codes other than 403 and 404 that the table does not
  name, so they are not in the list.
\<close>

theorem C5_unlisted_code_counterexample:
  "(400::int) \<le> 508 \<and> (508::int) < 600 \<and> 508 \<notin> set SPECIAL_ERROR_CODES
   \<and> 508 \<notin> set (ERROR_CODES requests_codes)
   \<and> (400::int) \<le> 599 \<and> (599::int) < 600 \<and> 599 \<notin> set SPECIAL_ERROR_CODES
   \<and> 599 \<notin> set (ERROR_CODES requests_codes)"
  by code_simp

text \<open>
  Claim C5 as amended. With the table of \<open>requests\<close>, the retry list is the 42 codes
  below: the codes that the table names from 400 on, without 403 and 404. The list is
  built once, from the table alone. In every run with at least one valid URL the
  policy that ends up mounted under both prefixes carries this list, with the default
  retry value and back-off factor. And the list alone keeps 403 and 404 from being
  retried: at whatever attempt and with whatever budget left, the retry loop returns
  such a response at once.
\<close>

theorem C5_retry_list_of_requests:
  fixes e :: env
  defines "p \<equiv> \<lparr>total = MAX_RETRY_FOR_SESSION, backoff_factor = BACK_OFF_FACTOR,
                 status_forcelist = ERROR_CODES requests_codes\<rparr>"
  assumes "codes e = requests_codes" and "url \<in> set urls" and "valid e url"
  shows "ERROR_CODES (codes e) =
           [400, 401, 402, 405, 406, 407, 408, 409, 410, 411, 412, 413, 414, 415,
            416, 417, 418, 421, 422, 423, 424, 425, 426, 428, 429, 431, 444, 449, 450, 451, 499,
            500, 501, 502, 503, 504, 505, 506, 507, 509, 510, 511]
       \<and> (\<exists>s'. fst (main_run e urls directory w) = Some s'
              \<and> map_of (adapters s') ''https://'' = Some (HTTPAdapter p)
              \<and> map_of (adapters s') ''http://'' = Some (HTTPAdapter p))
       \<and> (\<forall>srv k left c. status_of (srv k) = Some c \<and> (c = 403 \<or> c = 404)
              \<longrightarrow> urlopen srv (ERROR_CODES (codes e)) k left = (Inr (srv k), Suc k))"
proof -
  have "ERROR_CODES (codes e) =
           [400, 401, 402, 405, 406, 407, 408, 409, 410, 411, 412, 413, 414, 415,
            416, 417, 418, 421, 422, 423, 424, 425, 426, 428, 429, 431, 444, 449, 450, 451, 499,
            500, 501, 502, 503, 504, 505, 506, 507, 509, 510, 511]"
    unfolding assms(2) by (rule ERROR_CODES_requests)
  moreover have "\<exists>s'. fst (main_run e urls directory w) = Some s'
              \<and> map_of (adapters s') ''https://'' = Some (HTTPAdapter p)
              \<and> map_of (adapters s') ''http://'' = Some (HTTPAdapter p)"
    unfolding main_run_def p_def
    using run_tasks_policy[of urls e Session_new w] assms(2,3,4) by auto
  moreover have "urlopen srv (ERROR_CODES (codes e)) k left = (Inr (srv k), Suc k)"
    if "status_of (srv k) = Some c \<and> (c = 403 \<or> c = 404)" for srv k left c
    using that by (intro urlopen_returns_unlisted[where st = c]) (auto simp: special_not_in_ERROR_CODES)
  ultimately show ?thesis by blast
qed

theorem C5_retry_list_witness:
  "codes env_508 = requests_codes
   \<and> valid env_508 ''http://example.com/c.png''
   \<and> ERROR_CODES (codes env_508) =
           [400, 401, 402, 405, 406, 407, 408, 409, 410, 411, 412, 413, 414, 415,
            416, 417, 418, 421, 422, 423, 424, 425, 426, 428, 429, 431, 444, 449, 450, 451, 499,
            500, 501, 502, 503, 504, 505, 506, 507, 509, 510, 511]
   \<and> (\<exists>s'. fst (main_run env_508 [''not a url'', ''http://example.com/c.png''] ''/tmp/out'' world0)
                = Some s'
          \<and> map_of (adapters s') ''http://'' =
              Some (HTTPAdapter \<lparr>total = MAX_RETRY_FOR_SESSION, backoff_factor = BACK_OFF_FACTOR,
                     status_forcelist = ERROR_CODES requests_codes\<rparr>))
   \<and> urlopen (server env_503_404 ''http://example.com/b.png'') (ERROR_CODES (codes env_508)) 1 4
        = (Inr (Response 404 [60, 33]), 2)"
proof -
  have h1: "codes env_508 = requests_codes" by (simp add: env_508_def)
  have h2: "''http://example.com/c.png'' \<in> set [''not a url'', ''http://example.com/c.png'']"
    by simp
  have h3: "valid env_508 ''http://example.com/c.png''" by code_simp
  have a: "status_of (server env_503_404 ''http://example.com/b.png'' 1) = Some 404
           \<and> ((404::int) = 403 \<or> (404::int) = 404)"
    by (simp add: env_503_404_def)
  have b: "server env_503_404 ''http://example.com/b.png'' 1 = Response 404 [60, 33]"
    by (simp add: env_503_404_def)
  note t = C5_retry_list_of_requests [OF h1 h2 h3, of "''/tmp/out''" world0]
  from t have "ERROR_CODES (codes env_508) =
           [400, 401, 402, 405, 406, 407, 408, 409, 410, 411, 412, 413, 414, 415,
            416, 417, 418, 421, 422, 423, 424, 425, 426, 428, 429, 431, 444, 449, 450, 451, 499,
            500, 501, 502, 503, 504, 505, 506, 507, 509, 510, 511]"
    by (rule conjunct1)
  moreover from t have "\<exists>s'. fst (main_run env_508 [''not a url'', ''http://example.com/c.png'']
                ''/tmp/out'' world0) = Some s'
          \<and> map_of (adapters s') ''http://'' =
              Some (HTTPAdapter \<lparr>total = MAX_RETRY_FOR_SESSION, backoff_factor = BACK_OFF_FACTOR,
                     status_forcelist = ERROR_CODES requests_codes\<rparr>)"
    by blast
  moreover from t a
  have "urlopen (server env_503_404 ''http://example.com/b.png'') (ERROR_CODES (codes env_508)) 1 4
        = (Inr (server env_503_404 ''http://example.com/b.png'' 1), Suc 1)"
    by blast
  ultimately show ?thesis using h1 h3 b by simp
qed

subsection \<open>Invalid input\<close>

text \<open>
  Claim C7. A string that fails URL validation ends the task at once: the call returns
  normally after logging the invalid line, no network attempt is made, no file is
  written and the session is not touched.
\<close>

theorem C7_invalid_url_short_circuits:
  assumes "\<not> valid e url"
  shows "download e url retries bof sfl s w =
           (Inr (), s, w\<lparr>error_log := error_log w
                            @ [''The following line is not a valid URL: '' @ url]\<rparr>)
         \<and> sent (snd (snd (download e url retries bof sfl s w))) = sent w
         \<and> files (snd (snd (download e url retries bof sfl s w))) = files w"
  using assms by (simp add: download_def logging_error_def)

theorem C7_invalid_url_witness:
  "\<not> valid env_ok ''not a url''
   \<and> download env_ok ''not a url'' 5 (1 / 2) [500] (Some Session_new) world0 =
       (Inr (), Some Session_new,
        world0\<lparr>error_log := [''The following line is not a valid URL: not a url'']\<rparr>)
   \<and> sent (snd (snd (download env_ok ''not a url'' 5 (1 / 2) [500] (Some Session_new) world0))) = []
   \<and> files (snd (snd (download env_ok ''not a url'' 5 (1 / 2) [500] (Some Session_new) world0))) = Map.empty"
  using C7_invalid_url_short_circuits [of env_ok "''not a url''" 5 "1 / 2" "[500]" "Some Session_new" world0]
  by (simp add: env_ok_def http_prefixed_def startswith_def world0_def)

subsection \<open>The shared session\<close>

text \<open>
  Claim C8 says that a call of \<open>download\<close> does not change the shared session. As stated
  it fails: the call mounts new adapters, and the session that \<open>requests.Session()\<close>
  created is a different one afterwards.
\<close>

theorem C8_session_changed_counterexample:
  "fst (snd (download env_ok ''http://example.com/a.png'' MAX_RETRY_FOR_SESSION BACK_OFF_FACTOR
          (ERROR_CODES (codes env_ok)) (Some Session_new) world0)) \<noteq> Some Session_new"
  by code_simp

text \<open>
  Claim C8 as amended. For a valid URL the call replaces the adapters of the session
  under \<open>https://\<close> and \<open>http://\<close> by adapters built from the retry values it is given,
  and leaves every other prefix as it was; for an invalid URL the session is untouched.
  The retry values are only read.
\<close>

theorem C8_session_remounted:
  fixes retries :: int and bof :: rat and sfl :: "int list"
  defines "a \<equiv> HTTPAdapter \<lparr>total = retries, backoff_factor = bof, status_forcelist = sfl\<rparr>"
  shows "fst (snd (download e url retries bof sfl (Some s) w)) =
           (if valid e url then Some (mount ''http://'' a (mount ''https://'' a s)) else Some s)
       \<and> map_of (adapters (mount ''http://'' a (mount ''https://'' a s))) =
           (map_of (adapters s))(''https://'' \<mapsto> a, ''http://'' \<mapsto> a)"
proof -
  have "fst (snd (download e url retries bof sfl (Some s) w)) =
           (if valid e url then Some (mount ''http://'' a (mount ''https://'' a s)) else Some s)"
    unfolding a_def
    by (simp add: download_def Let_def split: prod.splits sum.splits list.splits)
  then show ?thesis by (simp add: map_of_mount)
qed

subsection \<open>An interrupt during the run\<close>

text \<open>
  Claim C9 says that after an interrupt no further task is taken from the queue, and
  that the run gives the outcomes of the started tasks only. The handler announces
  just that, but its \<open>shutdown\<close> cancels nothing: an interrupted run is the run without
  the interrupt. With 250 URLs and the interrupt arriving when the \<open>MAX_THREADS\<close>
  workers have taken up the first 100, all 250 URLs are fetched.
\<close>

theorem C9_queued_downloads_still_run:
  "length gallery = 250
   \<and> nat MAX_THREADS = 100
   \<and> sent (snd (main_interrupted env_ok gallery ''/tmp/out'' (nat MAX_THREADS) world0)) = gallery
   \<and> main_interrupted env_ok gallery ''/tmp/out'' (nat MAX_THREADS) world0
       = main_run env_ok gallery ''/tmp/out'' world0"
proof -
  have "length gallery = 250" by (simp add: gallery_def)
  moreover have "nat MAX_THREADS = 100" by (simp add: MAX_THREADS_def)
  moreover have "sent (snd (main_run env_ok gallery ''/tmp/out'' world0)) = gallery"
    unfolding main_run_def
    using run_tasks_sent[of gallery env_ok Session_new world0] gallery_urls plain_session_new
    by (simp add: world0_def)
  ultimately show ?thesis by (simp add: main_interrupted_runs_all)
qed

subsection \<open>A URL that ends with a slash\<close>

text \<open>
  Claim C10. For a valid URL that ends with \<open>/\<close> and whose fetch returns a response
  with a status other than 403 and 404, the derived file name is empty, opening it
  raises, and the call ends with that exception: no file is written and no line is
  logged.
\<close>

theorem C10_empty_file_name_raises:
  fixes retries :: int and bof :: rat and sfl :: "int list"
  defines "r \<equiv> \<lparr>total = retries, backoff_factor = bof, status_forcelist = sfl\<rparr>"
  assumes "valid e url"
    and "fst (session_get e (mount ''http://'' (HTTPAdapter r) (mount ''https://'' (HTTPAdapter r) s)) url w)
           = Inr (status_code, content)"
    and "status_code \<notin> set SPECIAL_ERROR_CODES"
    and "url \<noteq> []" and "last url = CHR ''/''"
  shows "rsplit1 CHR ''/'' url = [butlast url, []]
       \<and> fst (download e url retries bof sfl (Some s) w) = Inl FileNotFoundError
       \<and> files (snd (snd (download e url retries bof sfl (Some s) w))) = files w
       \<and> error_log (snd (snd (download e url retries bof sfl (Some s) w))) = error_log w"
proof -
  have split: "rsplit1 CHR ''/'' url = [butlast url, []]"
    using assms(5,6) by (rule rsplit1_trailing)
  let ?s2 = "mount ''http://'' (HTTPAdapter r) (mount ''https://'' (HTTPAdapter r) s)"
  obtain w1 where g: "session_get e ?s2 url w = (Inr (status_code, content), w1)"
    using assms(3) by (cases "session_get e ?s2 url w") simp
  have w1: "files w1 = files w" "error_log w1 = error_log w"
    using session_get_frame[of e ?s2 url w] g by simp_all
  have "download e url retries bof sfl (Some s) w = (Inl FileNotFoundError, Some ?s2, w1)"
    using assms(2,4) g split unfolding r_def
    by (simp add: download_def Let_def open_wb_write_def)
  with split w1 show ?thesis by simp
qed

theorem C10_empty_file_name_witness:
  "valid env_dir ''http://example.com/dir/''
   \<and> fst (session_get env_dir
        (mount ''http://'' (HTTPAdapter \<lparr>total = 5, backoff_factor = 1 / 2, status_forcelist = [500]\<rparr>)
          (mount ''https://'' (HTTPAdapter \<lparr>total = 5, backoff_factor = 1 / 2, status_forcelist = [500]\<rparr>)
             Session_new))
        ''http://example.com/dir/'' world0) = Inr (200, [60, 33])
   \<and> 200 \<notin> set SPECIAL_ERROR_CODES
   \<and> last ''http://example.com/dir/'' = CHR ''/''
   \<and> rsplit1 CHR ''/'' ''http://example.com/dir/'' = [''http://example.com/dir'', []]
   \<and> fst (download env_dir ''http://example.com/dir/'' 5 (1 / 2) [500] (Some Session_new) world0)
        = Inl FileNotFoundError
   \<and> files (snd (snd (download env_dir ''http://example.com/dir/'' 5 (1 / 2) [500]
        (Some Session_new) world0))) = Map.empty
   \<and> error_log (snd (snd (download env_dir ''http://example.com/dir/'' 5 (1 / 2) [500]
        (Some Session_new) world0))) = []"
proof -
  have h1: "valid env_dir ''http://example.com/dir/''" by code_simp
  have h2: "fst (session_get env_dir
        (mount ''http://'' (HTTPAdapter \<lparr>total = 5, backoff_factor = 1 / 2, status_forcelist = [500]\<rparr>)
          (mount ''https://'' (HTTPAdapter \<lparr>total = 5, backoff_factor = 1 / 2, status_forcelist = [500]\<rparr>)
             Session_new))
        ''http://example.com/dir/'' world0) = Inr (200, [60, 33])" by code_simp
  have h3: "200 \<notin> set SPECIAL_ERROR_CODES" by (simp add: SPECIAL_ERROR_CODES_def)
  have h4: "''http://example.com/dir/'' \<noteq> []" by simp
  have h5: "last ''http://example.com/dir/'' = CHR ''/''" by simp
  show ?thesis
    using C10_empty_file_name_raises [OF h1 h2 h3 h4 h5] h1 h2 h3 h5
    by (simp add: world0_def)
qed

end
